theory Spec2Isabelle
  imports Main
begin

section \<open>The signaling gateway of src/events/events.gateway.ts\<close>

text \<open>
  The source file holds two revisions of the class \<open>EventsGateway\<close>. The first
  (lines 1 to 172) addresses peers through \<^verbatim>\<open>this.server.to(id)\<close> and
  notifies the remaining participants on disconnect; the second (lines 173 to 322)
  addresses peers through \<^verbatim>\<open>client.to(id)\<close>, announces a newcomer with one
  room broadcast and emits nothing on disconnect. Both are embedded: the functions of
  the first revision carry the names of the source, those of the second the suffix
  \<open>2\<close>. The logger calls are left out: they touch neither the room table nor the
  transport.
\<close>

subsection \<open>JavaScript values\<close>

text \<open>
  The values a handler can receive from the wire. \<open>JSNumber\<close> carries an integer:
  fractions, NaN and the infinities are not represented. The only test the source
  applies to a number is \<^verbatim>\<open>!roomId || typeof roomId !== 'string'\<close>, which rejects
  every number.
\<close>

datatype js_value =
    JSUndefined
  | JSNull
  | JSBoolean bool
  | JSNumber int
  | JSString string
  | JSObject "(string \<times> js_value) list"

fun truthy :: "js_value \<Rightarrow> bool" where
  "truthy JSUndefined = False"
| "truthy JSNull = False"
| "truthy (JSBoolean b) = b"
| "truthy (JSNumber n) = (n \<noteq> 0)"
| "truthy (JSString s) = (s \<noteq> [])"
| "truthy (JSObject fs) = True"

fun typeof :: "js_value \<Rightarrow> string" where
  "typeof JSUndefined = ''undefined''"
| "typeof JSNull = ''object''"
| "typeof (JSBoolean b) = ''boolean''"
| "typeof (JSNumber n) = ''number''"
| "typeof (JSString s) = ''string''"
| "typeof (JSObject fs) = ''object''"

text \<open>
  Reading a property, \<^verbatim>\<open>v.k\<close>. An object is the list of its own properties,
  each named once; a
  property it lacks reads as \<^verbatim>\<open>undefined\<close>, and so does every property the
  gateway reads (\<^verbatim>\<open>roomId\<close>, \<^verbatim>\<open>targetPeerId\<close>, \<^verbatim>\<open>offer\<close>,
  \<^verbatim>\<open>answer\<close>, \<^verbatim>\<open>candidate\<close>) on a boolean, a number or a string.
\<close>

fun property_of :: "js_value \<Rightarrow> string \<Rightarrow> js_value" where
  "property_of (JSObject fs) k = (case map_of fs k of Some v \<Rightarrow> v | None \<Rightarrow> JSUndefined)"
| "property_of v k = JSUndefined"

text \<open>
  On \<^verbatim>\<open>undefined\<close> and \<^verbatim>\<open>null\<close> the read throws a \<^verbatim>\<open>TypeError\<close>. Its
  message is the engine's: the text below is that of V8, the engine of Node.js.
\<close>

definition type_error_message :: "js_value \<Rightarrow> string \<Rightarrow> string" where
  "type_error_message v k =
     ''Cannot read properties of '' @ (if v = JSNull then ''null'' else ''undefined'')
       @ '' (reading '' @ [CHR 0x27] @ k @ [CHR 0x27] @ '')''"

definition read_property :: "js_value \<Rightarrow> string \<Rightarrow> string + js_value" where
  "read_property v k =
     (if v = JSUndefined \<or> v = JSNull then Inl (type_error_message v k)
      else Inr (property_of v k))"

subsection \<open>Set and Map of JavaScript, in insertion order\<close>

text \<open>
  A \<^verbatim>\<open>Set<string>\<close> is the list of its elements in insertion order, a
  \<^verbatim>\<open>Map<string, Set<string>>\<close> the list of its entries in insertion order.
  \<^verbatim>\<open>forEach\<close> visits them in that order. Room and connection identifiers are
  \<open>string\<close>s: the gateway only compares them and tests them for emptiness.
\<close>

type_synonym js_set = "string list"
type_synonym room_store = "(string \<times> js_set) list"

definition Set_has :: "js_set \<Rightarrow> string \<Rightarrow> bool" where
  "Set_has s x = (x \<in> set s)"

definition Set_add :: "js_set \<Rightarrow> string \<Rightarrow> js_set" where
  "Set_add s x = (if x \<in> set s then s else s @ [x])"

definition Set_delete :: "js_set \<Rightarrow> string \<Rightarrow> js_set" where
  "Set_delete s x = filter (\<lambda>y. y \<noteq> x) s"

definition Set_size :: "js_set \<Rightarrow> nat" where
  "Set_size s = length s"

fun Map_get :: "room_store \<Rightarrow> string \<Rightarrow> js_set option" where
  "Map_get [] k = None"
| "Map_get ((k', v) # rest) k = (if k' = k then Some v else Map_get rest k)"

text \<open>
  \<^verbatim>\<open>Map.get\<close> with a key of any kind: the keys of the room table are strings
  (\<open>handleJoinRoom\<close> stores under a key only after \<^verbatim>\<open>typeof roomId\<close> was
  \<^verbatim>\<open>'string'\<close>), and a value that is not a string equals none of them.
\<close>

definition Map_get_value :: "room_store \<Rightarrow> js_value \<Rightarrow> js_set option" where
  "Map_get_value m key = (case key of JSString k \<Rightarrow> Map_get m k | _ \<Rightarrow> None)"

text \<open>\<^verbatim>\<open>Map.set\<close> keeps the place of a key that is present and appends a new one.\<close>

fun Map_set :: "room_store \<Rightarrow> string \<Rightarrow> js_set \<Rightarrow> room_store" where
  "Map_set [] k v = [(k, v)]"
| "Map_set ((k', v') # rest) k v =
     (if k' = k then (k, v) # rest else (k', v') # Map_set rest k v)"

subsection \<open>Calls to the transport\<close>

text \<open>
  The transport (socket.io) is outside the repository. A handler's output is the
  sequence of calls it makes on it: \<^verbatim>\<open>client.join(room)\<close>, and \<^verbatim>\<open>emit\<close>
  on one of three addresses: the calling socket itself (\<^verbatim>\<open>client.emit\<close>), a
  transport room through the server (\<^verbatim>\<open>this.server.to(room).emit\<close>), or a
  transport room through the calling socket, which leaves the caller out
  (\<^verbatim>\<open>client.to(room).emit\<close>). Every socket is by itself in the transport room
  named by its identifier, which is how an identifier addresses a connection. The room
  is whatever value the handler passes to \<^verbatim>\<open>to\<close>: a participant's identifier, or
  the \<^verbatim>\<open>targetPeerId\<close> of a relay payload as it came from the wire.
\<close>

datatype address =
    ToSelf string
  | ServerTo js_value
  | ClientTo string js_value

datatype transport_call =
    SocketJoin string string
  | Emit address string "(string \<times> js_value) list"


definition MAX_PARTICIPANTS :: nat where
  "MAX_PARTICIPANTS = 2"

subsection \<open>First revision (lines 17 to 172)\<close>

definition handleConnection :: "room_store \<Rightarrow> string \<Rightarrow> room_store \<times> transport_call list" where
  "handleConnection rooms clientId = (rooms, [])"

text \<open>
  \<^verbatim>\<open>this.rooms.forEach\<close> of \<open>cleanupClient\<close>: one equation per entry visited.
  The callback deletes at most the entry it is visiting, so the entries still to come
  are those of the list's tail.
\<close>

fun cleanupClient :: "room_store \<Rightarrow> string \<Rightarrow> room_store \<times> transport_call list" where
  "cleanupClient [] clientId = ([], [])"
| "cleanupClient ((roomId, participants) # rest) clientId =
     (let (rest', out) = cleanupClient rest clientId in
      if Set_has participants clientId then
        (let participants' = Set_delete participants clientId in
         if Set_size participants' = 0 then (rest', out)
         else ((roomId, participants') # rest',
               map (\<lambda>peerId. Emit (ServerTo (JSString peerId)) ''peer-disconnected''
                      [(''peerId'', JSString clientId)]) participants' @ out))
      else ((roomId, participants) # rest', out))"

definition handleDisconnect :: "room_store \<Rightarrow> string \<Rightarrow> room_store \<times> transport_call list" where
  "handleDisconnect rooms clientId = cleanupClient rooms clientId"

text \<open>
  The body of the \<^verbatim>\<open>try\<close> block of \<open>handleJoinRoom\<close>: \<open>Inl\<close> is the message of
  the \<^verbatim>\<open>Error\<close> thrown. Both throws come before any mutation.
\<close>

definition new_peer_exchange :: "string \<Rightarrow> string \<Rightarrow> transport_call list" where
  "new_peer_exchange clientId peerId =
     (if peerId \<noteq> clientId then
        [Emit (ServerTo (JSString peerId)) ''new-peer'' [(''peerId'', JSString clientId)],
         Emit (ToSelf clientId) ''new-peer'' [(''peerId'', JSString peerId)]]
      else [])"

definition joinRoom_try ::
  "room_store \<Rightarrow> string \<Rightarrow> js_value \<Rightarrow> string + room_store \<times> transport_call list" where
  "joinRoom_try rooms clientId roomId =
     (if \<not> truthy roomId \<or> typeof roomId \<noteq> ''string'' then Inl ''Invalid room ID''
      else case roomId of
        JSString rid \<Rightarrow>
          (let participants = (case Map_get rooms rid of Some ps \<Rightarrow> ps | None \<Rightarrow> []) in
           if Set_size participants \<ge> MAX_PARTICIPANTS then Inl ''Room is full''
           else
             (let participants' = Set_add participants clientId;
                  rooms' = Map_set rooms rid participants'
              in Inr (rooms',
                   [SocketJoin clientId rid,
                    Emit (ToSelf clientId) ''room-joined''
                      [(''success'', JSBoolean True), (''roomId'', roomId)]]
                   @ concat (map (new_peer_exchange clientId) participants'))))
      | _ \<Rightarrow> Inl ''Invalid room ID'')"

definition handleJoinRoom :: "room_store \<Rightarrow> string \<Rightarrow> js_value \<Rightarrow> room_store \<times> transport_call list" where
  "handleJoinRoom rooms clientId roomId =
     (case joinRoom_try rooms clientId roomId of
        Inr r \<Rightarrow> r
      | Inl message \<Rightarrow> (rooms, [Emit (ToSelf clientId) ''room-error'' [(''error'', JSString message)]]))"

text \<open>
  \<open>validateRoomParticipant\<close> is called with \<^verbatim>\<open>payload.roomId\<close> as it came from
  the wire, a string or not.
\<close>

definition validateRoomParticipant :: "room_store \<Rightarrow> string \<Rightarrow> js_value \<Rightarrow> bool" where
  "validateRoomParticipant rooms clientId roomId =
     (case Map_get_value rooms roomId of
        Some participants \<Rightarrow> Set_has participants clientId
      | None \<Rightarrow> False)"

text \<open>
  The three relay handlers. The payload is the value the client sent, of any kind, or
  \<^verbatim>\<open>undefined\<close> when it sent none. The first statement of the \<^verbatim>\<open>try\<close> block
  reads \<^verbatim>\<open>payload.roomId\<close>: on \<^verbatim>\<open>undefined\<close> and \<^verbatim>\<open>null\<close> that throws,
  and the \<^verbatim>\<open>catch\<close> block emits the message of whatever was thrown. The reads
  that follow are of a payload on which reading does not throw.
\<close>

definition signaling_error :: "string \<Rightarrow> string \<Rightarrow> transport_call" where
  "signaling_error clientId message =
     Emit (ToSelf clientId) ''signaling-error'' [(''error'', JSString message)]"

definition handleOffer :: "room_store \<Rightarrow> string \<Rightarrow> js_value \<Rightarrow> room_store \<times> transport_call list" where
  "handleOffer rooms clientId payload =
     (case read_property payload ''roomId'' of
        Inl message \<Rightarrow> (rooms, [signaling_error clientId message])
      | Inr roomId \<Rightarrow>
          if \<not> validateRoomParticipant rooms clientId roomId
          then (rooms, [signaling_error clientId ''Not a room participant''])
          else (rooms, [Emit (ServerTo (property_of payload ''targetPeerId'')) ''offer''
                          [(''offer'', property_of payload ''offer''), (''senderId'', JSString clientId)]]))"

definition handleAnswer :: "room_store \<Rightarrow> string \<Rightarrow> js_value \<Rightarrow> room_store \<times> transport_call list" where
  "handleAnswer rooms clientId payload =
     (case read_property payload ''roomId'' of
        Inl message \<Rightarrow> (rooms, [signaling_error clientId message])
      | Inr roomId \<Rightarrow>
          if \<not> validateRoomParticipant rooms clientId roomId
          then (rooms, [signaling_error clientId ''Not a room participant''])
          else (rooms, [Emit (ServerTo (property_of payload ''targetPeerId'')) ''answer''
                          [(''answer'', property_of payload ''answer''), (''senderId'', JSString clientId)]]))"

definition handleIceCandidate :: "room_store \<Rightarrow> string \<Rightarrow> js_value \<Rightarrow> room_store \<times> transport_call list" where
  "handleIceCandidate rooms clientId payload =
     (case read_property payload ''roomId'' of
        Inl message \<Rightarrow> (rooms, [signaling_error clientId message])
      | Inr roomId \<Rightarrow>
          if \<not> validateRoomParticipant rooms clientId roomId
          then (rooms, [signaling_error clientId ''Not a room participant''])
          else (rooms, [Emit (ServerTo (property_of payload ''targetPeerId'')) ''ice-candidate''
                          [(''candidate'', property_of payload ''candidate''), (''senderId'', JSString clientId)]]))"

subsection \<open>Second revision (lines 190 to 322)\<close>

text \<open>\<open>handleConnection\<close> and \<open>validateRoomParticipant\<close> are the same text in both.\<close>

fun cleanupClient2 :: "room_store \<Rightarrow> string \<Rightarrow> room_store \<times> transport_call list" where
  "cleanupClient2 [] clientId = ([], [])"
| "cleanupClient2 ((roomId, participants) # rest) clientId =
     (let (rest', out) = cleanupClient2 rest clientId in
      if Set_has participants clientId then
        (let participants' = Set_delete participants clientId in
         if Set_size participants' = 0 then (rest', out)
         else ((roomId, participants') # rest', out))
      else ((roomId, participants) # rest', out))"

definition handleDisconnect2 :: "room_store \<Rightarrow> string \<Rightarrow> room_store \<times> transport_call list" where
  "handleDisconnect2 rooms clientId = cleanupClient2 rooms clientId"

definition joinRoom_try2 ::
  "room_store \<Rightarrow> string \<Rightarrow> js_value \<Rightarrow> string + room_store \<times> transport_call list" where
  "joinRoom_try2 rooms clientId roomId =
     (if \<not> truthy roomId \<or> typeof roomId \<noteq> ''string'' then Inl ''Invalid room ID''
      else case roomId of
        JSString rid \<Rightarrow>
          (let participants = (case Map_get rooms rid of Some ps \<Rightarrow> ps | None \<Rightarrow> []) in
           if Set_size participants \<ge> MAX_PARTICIPANTS then Inl ''Room is full''
           else
             (let participants' = Set_add participants clientId;
                  rooms' = Map_set rooms rid participants'
              in Inr (rooms',
                   [SocketJoin clientId rid,
                    Emit (ToSelf clientId) ''room-joined''
                      [(''success'', JSBoolean True), (''roomId'', roomId)]]
                   @ (if Set_size participants' > 1
                      then [Emit (ClientTo clientId roomId) ''new-peer'' [(''peerId'', JSString clientId)]]
                      else []))))
      | _ \<Rightarrow> Inl ''Invalid room ID'')"

definition handleJoinRoom2 :: "room_store \<Rightarrow> string \<Rightarrow> js_value \<Rightarrow> room_store \<times> transport_call list" where
  "handleJoinRoom2 rooms clientId roomId =
     (case joinRoom_try2 rooms clientId roomId of
        Inr r \<Rightarrow> r
      | Inl message \<Rightarrow> (rooms, [Emit (ToSelf clientId) ''room-error'' [(''error'', JSString message)]]))"

definition handleOffer2 :: "room_store \<Rightarrow> string \<Rightarrow> js_value \<Rightarrow> room_store \<times> transport_call list" where
  "handleOffer2 rooms clientId payload =
     (case read_property payload ''roomId'' of
        Inl message \<Rightarrow> (rooms, [signaling_error clientId message])
      | Inr roomId \<Rightarrow>
          if \<not> validateRoomParticipant rooms clientId roomId
          then (rooms, [signaling_error clientId ''Not a room participant''])
          else (rooms, [Emit (ClientTo clientId (property_of payload ''targetPeerId'')) ''offer''
                          [(''offer'', property_of payload ''offer''), (''senderId'', JSString clientId)]]))"

definition handleAnswer2 :: "room_store \<Rightarrow> string \<Rightarrow> js_value \<Rightarrow> room_store \<times> transport_call list" where
  "handleAnswer2 rooms clientId payload =
     (case read_property payload ''roomId'' of
        Inl message \<Rightarrow> (rooms, [signaling_error clientId message])
      | Inr roomId \<Rightarrow>
          if \<not> validateRoomParticipant rooms clientId roomId
          then (rooms, [signaling_error clientId ''Not a room participant''])
          else (rooms, [Emit (ClientTo clientId (property_of payload ''targetPeerId'')) ''answer''
                          [(''answer'', property_of payload ''answer''), (''senderId'', JSString clientId)]]))"

definition handleIceCandidate2 :: "room_store \<Rightarrow> string \<Rightarrow> js_value \<Rightarrow> room_store \<times> transport_call list" where
  "handleIceCandidate2 rooms clientId payload =
     (case read_property payload ''roomId'' of
        Inl message \<Rightarrow> (rooms, [signaling_error clientId message])
      | Inr roomId \<Rightarrow>
          if \<not> validateRoomParticipant rooms clientId roomId
          then (rooms, [signaling_error clientId ''Not a room participant''])
          else (rooms, [Emit (ClientTo clientId (property_of payload ''targetPeerId'')) ''ice-candidate''
                          [(''candidate'', property_of payload ''candidate''), (''senderId'', JSString clientId)]]))"

subsection \<open>Inbound events and runs of the gateway\<close>

text \<open>
  The framework calls one handler per inbound event, each to completion before the
  next. The room table starts empty (\<^verbatim>\<open>new Map()\<close>).
\<close>

datatype revision = Rev1 | Rev2

datatype relay_kind = OfferK | AnswerK | IceCandidateK

datatype inbound =
    Connect string
  | Disconnect string
  | JoinRoom string js_value
  | Relay relay_kind string js_value

fun relay :: "revision \<Rightarrow> relay_kind \<Rightarrow> room_store \<Rightarrow> string \<Rightarrow> js_value
    \<Rightarrow> room_store \<times> transport_call list" where
  "relay Rev1 OfferK = handleOffer"
| "relay Rev1 AnswerK = handleAnswer"
| "relay Rev1 IceCandidateK = handleIceCandidate"
| "relay Rev2 OfferK = handleOffer2"
| "relay Rev2 AnswerK = handleAnswer2"
| "relay Rev2 IceCandidateK = handleIceCandidate2"

fun join_room :: "revision \<Rightarrow> room_store \<Rightarrow> string \<Rightarrow> js_value \<Rightarrow> room_store \<times> transport_call list" where
  "join_room Rev1 = handleJoinRoom"
| "join_room Rev2 = handleJoinRoom2"

fun disconnect :: "revision \<Rightarrow> room_store \<Rightarrow> string \<Rightarrow> room_store \<times> transport_call list" where
  "disconnect Rev1 = handleDisconnect"
| "disconnect Rev2 = handleDisconnect2"

fun handle :: "revision \<Rightarrow> room_store \<Rightarrow> inbound \<Rightarrow> room_store \<times> transport_call list" where
  "handle v rooms (Connect c) = handleConnection rooms c"
| "handle v rooms (Disconnect c) = disconnect v rooms c"
| "handle v rooms (JoinRoom c r) = join_room v rooms c r"
| "handle v rooms (Relay k c p) = relay v k rooms c p"

text \<open>The room table after a sequence of inbound events, from the empty table.\<close>

fun run_from :: "revision \<Rightarrow> room_store \<Rightarrow> inbound list \<Rightarrow> room_store" where
  "run_from v rooms [] = rooms"
| "run_from v rooms (e # es) = run_from v (fst (handle v rooms e)) es"

definition run :: "revision \<Rightarrow> inbound list \<Rightarrow> room_store" where
  "run v es = run_from v [] es"

text \<open>Observations on a handler's output.\<close>

text \<open>The data of the events of a given name emitted on a given address, in order.\<close>

fun events_on :: "address \<Rightarrow> string \<Rightarrow> transport_call list \<Rightarrow> (string \<times> js_value) list list" where
  "events_on a n [] = []"
| "events_on a n (SocketJoin c r # cs) = events_on a n cs"
| "events_on a n (Emit a' n' d # cs) =
     (if a' = a \<and> n' = n then d # events_on a n cs else events_on a n cs)"




text \<open>The participants of a room, none when the room is absent
  (\<^verbatim>\<open>this.rooms.get(roomId) || new Set()\<close>).\<close>

definition members :: "room_store \<Rightarrow> string \<Rightarrow> js_set" where
  "members rs r = (case Map_get rs r of Some ps \<Rightarrow> ps | None \<Rightarrow> [])"

text \<open>
  Well-formedness of the room table: unique keys, as in any \<^verbatim>\<open>Map\<close>, and for every
  room a non-empty key and a non-empty duplicate-free participant list within the
  capacity.
\<close>

definition store_ok :: "room_store \<Rightarrow> bool" where
  "store_ok rs = (distinct (map fst rs) \<and>
     (\<forall>(k, ps) \<in> set rs. k \<noteq> [] \<and> ps \<noteq> [] \<and> distinct ps \<and> length ps \<le> MAX_PARTICIPANTS))"

text \<open>The number of rooms that hold both \<open>c\<close> and \<open>d\<close>.\<close>

definition shared_rooms :: "room_store \<Rightarrow> string \<Rightarrow> string \<Rightarrow> nat" where
  "shared_rooms rs c d = length (filter (\<lambda>(k, ps). c \<in> set ps \<and> d \<in> set ps) rs)"

section \<open>Properties\<close>

subsection \<open>Map and Set operations\<close>

lemma Map_get_Map_set: "Map_get (Map_set rs k v) k' = (if k' = k then Some v else Map_get rs k')"
  by (induction rs) auto

lemma Map_get_in_set: "Map_get rs k = Some v \<Longrightarrow> (k, v) \<in> set rs"
  by (induction rs) (auto split: if_splits)

lemma Map_get_None: "(Map_get rs k = None) = (k \<notin> fst ` set rs)"
  by (induction rs) (auto split: if_splits)

lemma in_set_Map_get: "distinct (map fst rs) \<Longrightarrow> (k, v) \<in> set rs \<Longrightarrow> Map_get rs k = Some v"
  by (induction rs) (auto simp: rev_image_eqI)

lemma set_Map_set: "set (Map_set rs k v) \<subseteq> insert (k, v) (set rs)"
  by (induction rs) (auto split: if_splits)

lemma keys_Map_set: "fst ` set (Map_set rs k v) = insert k (fst ` set rs)"
  by (induction rs) (force split: if_splits)+

lemma distinct_Map_set: "distinct (map fst rs) \<Longrightarrow> distinct (map fst (Map_set rs k v))"
  by (induction rs) (auto simp: keys_Map_set)

lemma Map_set_same: "Map_get rs k = Some v \<Longrightarrow> Map_set rs k v = rs"
  by (induction rs) (auto split: if_splits)

lemma store_ok_Map_set:
  "store_ok rs \<Longrightarrow> k \<noteq> [] \<Longrightarrow> ps \<noteq> [] \<Longrightarrow> distinct ps \<Longrightarrow> length ps \<le> MAX_PARTICIPANTS
     \<Longrightarrow> store_ok (Map_set rs k ps)"
  unfolding store_ok_def using set_Map_set [of rs k ps] by (auto simp: distinct_Map_set)

lemma store_ok_get: "store_ok rs \<Longrightarrow> Map_get rs k = Some ps \<Longrightarrow>
   k \<noteq> [] \<and> ps \<noteq> [] \<and> distinct ps \<and> length ps \<le> MAX_PARTICIPANTS"
  unfolding store_ok_def by (auto dest!: Map_get_in_set)

lemma distinct_Set_add: "distinct ps \<Longrightarrow> distinct (Set_add ps c)"
  by (simp add: Set_add_def)

lemma Set_add_nonempty: "Set_add ps c \<noteq> []"
  by (auto simp: Set_add_def)

lemma length_Set_add: "length (Set_add ps c) \<le> Suc (length ps)"
  by (simp add: Set_add_def)

lemma fst_handleJoinRoom2: "fst (handleJoinRoom2 rs c r) = fst (handleJoinRoom rs c r)"
  by (cases r) (simp_all add: handleJoinRoom2_def handleJoinRoom_def joinRoom_try2_def joinRoom_try_def Let_def)

lemma joinRoom_try_Inr:
  "r \<noteq> [] \<Longrightarrow> length (case Map_get rs r of Some ps \<Rightarrow> ps | None \<Rightarrow> []) < MAX_PARTICIPANTS \<Longrightarrow>
   fst (handleJoinRoom rs c (JSString r)) =
     Map_set rs r (Set_add (case Map_get rs r of Some ps \<Rightarrow> ps | None \<Rightarrow> []) c)"
  by (simp add: handleJoinRoom_def joinRoom_try_def Let_def Set_size_def)

lemma joinRoom_try_Inl:
  "r = [] \<or> \<not> length (case Map_get rs r of Some ps \<Rightarrow> ps | None \<Rightarrow> []) < MAX_PARTICIPANTS \<Longrightarrow>
   fst (handleJoinRoom rs c (JSString r)) = rs"
  by (auto simp: handleJoinRoom_def joinRoom_try_def Let_def Set_size_def)

lemma store_ok_handleJoinRoom: "store_ok rs \<Longrightarrow> store_ok (fst (handleJoinRoom rs c r))"
proof (cases r)
  case (JSString rid)
  assume ok: "store_ok rs"
  let ?ps = "case Map_get rs rid of Some ps \<Rightarrow> ps | None \<Rightarrow> []"
  show ?thesis
  proof (cases "rid \<noteq> [] \<and> length ?ps < MAX_PARTICIPANTS")
    case True
    have d: "distinct ?ps" using store_ok_get [OF ok] by (cases "Map_get rs rid") auto
    have "store_ok (Map_set rs rid (Set_add ?ps c))"
    proof (rule store_ok_Map_set [OF ok])
      show "rid \<noteq> []" using True by simp
      show "Set_add ?ps c \<noteq> []" by (rule Set_add_nonempty)
      show "distinct (Set_add ?ps c)" using d by (rule distinct_Set_add)
      show "length (Set_add ?ps c) \<le> MAX_PARTICIPANTS"
        using True length_Set_add [of ?ps c] by simp
    qed
    with True JSString show ?thesis by (simp add: joinRoom_try_Inr)
  next
    case False
    then have "fst (handleJoinRoom rs c (JSString rid)) = rs"
      by (intro joinRoom_try_Inl) auto
    with ok JSString show ?thesis by simp
  qed
qed (simp_all add: handleJoinRoom_def joinRoom_try_def)

lemma fst_cleanupClient2: "fst (cleanupClient2 rs c) = fst (cleanupClient rs c)"
  by (induction rs) (auto simp: Let_def split: prod.splits)

lemma snd_cleanupClient2: "snd (cleanupClient2 rs c) = []"
  by (induction rs) (auto simp: Let_def split: prod.splits)

lemma keys_cleanupClient: "fst ` set (fst (cleanupClient rs c)) \<subseteq> fst ` set rs"
proof (induction rs)
  case Nil
  then show ?case by simp
next
  case (Cons e rs)
  obtain k ps where e: "e = (k, ps)" by (cases e)
  obtain rest' out where r: "cleanupClient rs c = (rest', out)" by (cases "cleanupClient rs c")
  from Cons.IH r have "fst ` set rest' \<subseteq> fst ` set rs" by simp
  then show ?case unfolding e by (auto simp: r Let_def)
qed

lemma store_ok_cleanupClient: "store_ok rs \<Longrightarrow> store_ok (fst (cleanupClient rs c))"
proof (induction rs)
  case Nil
  then show ?case by simp
next
  case (Cons e rs)
  obtain k ps where e: "e = (k, ps)" by (cases e)
  from Cons.prems have ok: "store_ok rs" by (simp add: store_ok_def)
  from Cons.IH [OF ok] have ih: "store_ok (fst (cleanupClient rs c))" .
  from Cons.prems e have k: "k \<notin> fst ` set rs" "k \<noteq> []" "ps \<noteq> []" "distinct ps"
      "length ps \<le> MAX_PARTICIPANTS"
    by (auto simp: store_ok_def)
  from k(1) keys_cleanupClient [of rs c] have k': "k \<notin> fst ` set (fst (cleanupClient rs c))"
    by blast
  have len: "length (Set_delete ps c) \<le> MAX_PARTICIPANTS"
    unfolding Set_delete_def by (rule le_trans [OF length_filter_le k(5)])
  show ?case using ih k k' len unfolding e
    by (auto simp: store_ok_def Let_def Set_size_def Set_delete_def split: prod.splits)
qed

lemma fst_relay: "fst (relay v k rs c p) = rs"
  by (cases v; cases k)
     (simp_all add: handleOffer_def handleAnswer_def handleIceCandidate_def
        handleOffer2_def handleAnswer2_def handleIceCandidate2_def split: sum.splits)

lemma store_ok_handle: "store_ok rs \<Longrightarrow> store_ok (fst (handle v rs e))"
proof (cases e)
  case (Connect c)
  assume "store_ok rs"
  with Connect show ?thesis by (simp add: handleConnection_def)
next
  case (Disconnect c)
  assume "store_ok rs"
  with Disconnect show ?thesis
    by (cases v) (simp_all add: handleDisconnect_def handleDisconnect2_def fst_cleanupClient2
        store_ok_cleanupClient)
next
  case (JoinRoom c r)
  assume "store_ok rs"
  with JoinRoom show ?thesis
    by (cases v) (simp_all add: fst_handleJoinRoom2 store_ok_handleJoinRoom)
next
  case (Relay k c p)
  assume "store_ok rs"
  with Relay show ?thesis by (simp add: fst_relay)
qed

lemma store_ok_run_from: "store_ok rs \<Longrightarrow> store_ok (run_from v rs es)"
  by (induction es arbitrary: rs) (simp_all add: store_ok_handle)

lemma store_ok_empty: "store_ok []"
  by (simp add: store_ok_def)

lemma store_ok_run: "store_ok (run v es)"
  unfolding run_def by (rule store_ok_run_from [OF store_ok_empty])

lemma Map_get_cleanupClient:
  "distinct (map fst rs) \<Longrightarrow>
   Map_get (fst (cleanupClient rs c)) k =
     (case Map_get rs k of
        None \<Rightarrow> None
      | Some ps \<Rightarrow>
          if c \<in> set ps then (if Set_delete ps c = [] then None else Some (Set_delete ps c))
          else Some ps)"
proof (induction rs)
  case Nil
  then show ?case by simp
next
  case (Cons e rs)
  obtain k' ps' where e: "e = (k', ps')" by (cases e)
  obtain rest' out where r: "cleanupClient rs c = (rest', out)" by (cases "cleanupClient rs c")
  from Cons.prems e have d: "distinct (map fst rs)" and nk: "k' \<notin> fst ` set rs" by auto
  from Cons.IH [OF d] r have ih: "Map_get rest' k =
     (case Map_get rs k of
        None \<Rightarrow> None
      | Some ps \<Rightarrow>
          if c \<in> set ps then (if Set_delete ps c = [] then None else Some (Set_delete ps c))
          else Some ps)" by simp
  show ?case
  proof (cases "k' = k")
    case True
    with nk have "Map_get rs k = None" by (simp add: Map_get_None)
    with ih have "Map_get rest' k = None" by simp
    with True show ?thesis unfolding e by (simp add: r Let_def Set_has_def Set_size_def)
  next
    case False
    with ih show ?thesis unfolding e by (simp add: r Let_def Set_has_def Set_size_def)
  qed
qed

lemma join_room_full:
  "r \<noteq> [] \<Longrightarrow> Map_get rs r = Some ps \<Longrightarrow> MAX_PARTICIPANTS \<le> length ps \<Longrightarrow>
   join_room v rs c (JSString r) =
     (rs, [Emit (ToSelf c) ''room-error'' [(''error'', JSString ''Room is full'')]])"
  by (cases v)
     (simp_all add: handleJoinRoom_def joinRoom_try_def handleJoinRoom2_def joinRoom_try2_def
        Set_size_def)

subsection \<open>The handlers on a well-formed table\<close>

lemma Map_set_absent: "Map_get rs k = None \<Longrightarrow> Map_set rs k v = rs @ [(k, v)]"
  by (induction rs) (auto split: if_splits)

lemma join_room_absent:
  "r \<noteq> [] \<Longrightarrow> Map_get rs r = None \<Longrightarrow>
   join_room v rs c (JSString r) =
     (rs @ [(r, [c])],
      [SocketJoin c r,
       Emit (ToSelf c) ''room-joined'' [(''success'', JSBoolean True), (''roomId'', JSString r)]])"
  by (cases v)
     (simp_all add: handleJoinRoom_def joinRoom_try_def handleJoinRoom2_def joinRoom_try2_def
        Set_size_def Set_add_def MAX_PARTICIPANTS_def Map_set_absent new_peer_exchange_def)

lemma fst_disconnect: "fst (disconnect v rs c) = fst (cleanupClient rs c)"
  by (cases v) (simp_all add: handleDisconnect_def handleDisconnect2_def fst_cleanupClient2)

lemma store_ok_nonempty: "store_ok rs \<Longrightarrow> (k, ps) \<in> set rs \<Longrightarrow> ps \<noteq> []"
  unfolding store_ok_def by auto

lemma cleanupClient_absent:
  "\<forall>(k, ps) \<in> set rs. c \<notin> set ps \<Longrightarrow> cleanupClient rs c = (rs, [])"
  by (induction rs) (auto simp: Set_has_def)

lemma cleanupClient_calls:
  "e \<in> set (snd (cleanupClient rs c)) \<Longrightarrow>
   \<exists>d. e = Emit (ServerTo (JSString d)) ''peer-disconnected'' [(''peerId'', JSString c)]"
proof (induction rs)
  case Nil
  then show ?case by simp
next
  case (Cons x rs)
  obtain k ps where x: "x = (k, ps)" by (cases x)
  obtain rest' out where r: "cleanupClient rs c = (rest', out)" by (cases "cleanupClient rs c")
  from Cons.prems have "e \<in> set out \<or>
      e \<in> (\<lambda>peerId. Emit (ServerTo (JSString peerId)) ''peer-disconnected'' [(''peerId'', JSString c)]) ` set (Set_delete ps c)"
    unfolding x by (auto simp: r Let_def split: if_splits)
  with Cons.IH r show ?case by auto
qed

lemma short_member: "distinct ps \<Longrightarrow> c \<in> set ps \<Longrightarrow> length ps < 2 \<Longrightarrow> ps = [c]"
  by (cases ps) auto

lemma shared_rooms_one:
  assumes dk: "distinct (map fst rs)" and m: "(r, ps) \<in> set rs" and c: "c \<in> set ps" and d: "d \<in> set ps"
    and only: "\<forall>(k, qs) \<in> set rs. c \<in> set qs \<and> d \<in> set qs \<longrightarrow> k = r"
  shows "shared_rooms rs c d = 1"
proof -
  let ?F = "filter (\<lambda>(k, ps). c \<in> set ps \<and> d \<in> set ps) rs"
  have dF: "distinct (map fst ?F)" using dk by (rule distinct_map_filter)
  have "(r, ps) \<in> set ?F" using m c d by simp
  then have "r \<in> set (map fst ?F)" by force
  moreover have "set (map fst ?F) \<subseteq> {r}" using only by auto
  ultimately have "set (map fst ?F) = {r}" by blast
  then have "card (set (map fst ?F)) = 1" by simp
  with distinct_card [OF dF] have "length ?F = 1" by simp
  then show ?thesis by (simp add: shared_rooms_def)
qed



subsection \<open>Events emitted on disconnect\<close>

lemma events_on_append: "events_on a n (xs @ ys) = events_on a n xs @ events_on a n ys"
  by (induction a n xs rule: events_on.induct) simp_all

lemma events_on_notify:
  "distinct qs \<Longrightarrow>
   events_on (ServerTo (JSString d)) n (map (\<lambda>peerId. Emit (ServerTo (JSString peerId)) n data) qs) =
     (if d \<in> set qs then [data] else [])"
  by (induction qs) auto

lemma events_on_cleanupClient:
  "\<forall>(k, ps) \<in> set rs. distinct ps \<Longrightarrow> d \<noteq> c \<Longrightarrow>
   events_on (ServerTo (JSString d)) ''peer-disconnected'' (snd (cleanupClient rs c)) =
     replicate (shared_rooms rs c d) [(''peerId'', JSString c)]"
proof (induction rs)
  case Nil
  then show ?case by (simp add: shared_rooms_def)
next
  case (Cons x rs)
  obtain k ps where x: "x = (k, ps)" by (cases x)
  obtain rest' out where r: "cleanupClient rs c = (rest', out)" by (cases "cleanupClient rs c")
  from Cons.prems x have dps: "distinct ps" and drs: "\<forall>(k, ps) \<in> set rs. distinct ps" by auto
  from Cons.IH [OF drs Cons.prems(2)] r
  have ih: "events_on (ServerTo (JSString d)) ''peer-disconnected'' out =
     replicate (shared_rooms rs c d) [(''peerId'', JSString c)]" by simp
  have sh: "shared_rooms ((k, ps) # rs) c d =
      (if c \<in> set ps \<and> d \<in> set ps then Suc (shared_rooms rs c d) else shared_rooms rs c d)"
    by (simp add: shared_rooms_def)
  have dq: "distinct (filter (\<lambda>y. y \<noteq> c) ps)" using dps by simp
  have mem: "d \<in> set (filter (\<lambda>y. y \<noteq> c) ps) \<longleftrightarrow> d \<in> set ps" using Cons.prems(2) by auto
  show ?case
  proof (cases "c \<in> set ps")
    case False
    with ih show ?thesis unfolding x by (simp add: r sh Set_has_def)
  next
    case True
    show ?thesis
    proof (cases "filter (\<lambda>y. y \<noteq> c) ps = []")
      case e: True
      with mem have "d \<notin> set ps" by simp
      with True e ih show ?thesis unfolding x
        by (simp add: r sh Set_has_def Set_delete_def Set_size_def Let_def)
    next
      case ne: False
      with True ih mem show ?thesis unfolding x
        by (simp add: r sh Set_has_def Set_delete_def Set_size_def Let_def events_on_append
            events_on_notify [OF dq])
    qed
  qed
qed

lemma two_members: "length ps = 2 \<Longrightarrow> distinct ps \<Longrightarrow> c \<in> set ps \<Longrightarrow> d \<in> set ps \<Longrightarrow> d \<noteq> c
   \<Longrightarrow> filter (\<lambda>y. y \<noteq> c) ps = [d]"
proof -
  assume l: "length ps = 2" and a: "distinct ps" "c \<in> set ps" "d \<in> set ps" "d \<noteq> c"
  from l obtain x y where "ps = [x, y]"
    by (cases ps; cases "tl ps") auto
  with a show ?thesis by auto
qed

lemma shared_rooms_pos: "(k, ps) \<in> set rs \<Longrightarrow> c \<in> set ps \<Longrightarrow> d \<in> set ps \<Longrightarrow> 1 \<le> shared_rooms rs c d"
proof -
  assume "(k, ps) \<in> set rs" "c \<in> set ps" "d \<in> set ps"
  then have "(k, ps) \<in> set (filter (\<lambda>(k, ps). c \<in> set ps \<and> d \<in> set ps) rs)" by simp
  then have "filter (\<lambda>(k, ps). c \<in> set ps \<and> d \<in> set ps) rs \<noteq> []" by force
  then show ?thesis unfolding shared_rooms_def by (simp add: Suc_le_eq)
qed

lemmas eval_simps = run_def handleJoinRoom_def joinRoom_try_def handleJoinRoom2_def
  joinRoom_try2_def Let_def Set_add_def Set_size_def Set_has_def Set_delete_def MAX_PARTICIPANTS_def
  new_peer_exchange_def handleDisconnect_def handleDisconnect2_def handleConnection_def
  validateRoomParticipant_def handleOffer_def handleAnswer_def handleIceCandidate_def
  handleOffer2_def handleAnswer2_def handleIceCandidate2_def signaling_error_def members_def
  read_property_def type_error_message_def Map_get_value_def

subsection \<open>Capacity\<close>

text \<open>
  Claim C1. After any sequence of inbound events from the empty table, in either
  revision, every room holds at most 2 distinct connection identifiers; and a
  \<open>join-room\<close> on a room that holds 2 is answered with \<open>room-error\<close>
  \<open>Room is full\<close> and leaves the whole table as it was.
\<close>

theorem join_capacity:
  "(\<forall>r ps. Map_get (run v es) r = Some ps \<longrightarrow> distinct ps \<and> length ps \<le> 2) \<and>
   (\<forall>r ps c. Map_get (run v es) r = Some ps \<and> length ps = 2 \<longrightarrow>
      handle v (run v es) (JoinRoom c (JSString r)) =
        (run v es, [Emit (ToSelf c) ''room-error'' [(''error'', JSString ''Room is full'')]]))"
proof -
  have cap: "distinct ps \<and> length ps \<le> 2" if "Map_get (run v es) r = Some ps" for r ps
    using store_ok_get [OF store_ok_run that] by (simp add: MAX_PARTICIPANTS_def)
  have full: "handle v (run v es) (JoinRoom c (JSString r)) =
        (run v es, [Emit (ToSelf c) ''room-error'' [(''error'', JSString ''Room is full'')]])"
    if a: "Map_get (run v es) r = Some ps \<and> length ps = 2" for r ps c
  proof -
    from a have g: "Map_get (run v es) r = Some ps" and l: "MAX_PARTICIPANTS \<le> length ps"
      by (simp_all add: MAX_PARTICIPANTS_def)
    from store_ok_get [OF store_ok_run g] have "r \<noteq> []" by simp
    from join_room_full [OF this g l] show ?thesis by simp
  qed
  from cap full show ?thesis by blast
qed

theorem join_capacity_witness:
  "Map_get (run Rev1 [JoinRoom ''A'' (JSString ''x''), JoinRoom ''B'' (JSString ''x'')]) ''x''
     = Some [''A'', ''B''] \<and>
   handle Rev1 (run Rev1 [JoinRoom ''A'' (JSString ''x''), JoinRoom ''B'' (JSString ''x'')])
       (JoinRoom ''C'' (JSString ''x'')) =
     ([(''x'', [''A'', ''B''])],
      [Emit (ToSelf ''C'') ''room-error'' [(''error'', JSString ''Room is full'')]])"
proof -
  have g: "run Rev1 [JoinRoom ''A'' (JSString ''x''), JoinRoom ''B'' (JSString ''x'')]
      = [(''x'', [''A'', ''B''])]"
    by (simp add: eval_simps)
  from join_capacity [of Rev1 "[JoinRoom ''A'' (JSString ''x''), JoinRoom ''B'' (JSString ''x'')]"]
  have "Map_get [(''x'', [''A'', ''B''])] ''x'' = Some [''A'', ''B''] \<and> length [''A'', ''B''] = 2 \<longrightarrow>
      handle Rev1 [(''x'', [''A'', ''B''])] (JoinRoom ''C'' (JSString ''x'')) =
        ([(''x'', [''A'', ''B''])], [Emit (ToSelf ''C'') ''room-error'' [(''error'', JSString ''Room is full'')]])"
    unfolding g by blast
  then show ?thesis unfolding g by simp
qed

subsection \<open>Rejections\<close>

text \<open>
  Claim C2, as amended. In either revision and on any room table, take a relay of any
  kind (offer, answer, ice-candidate) by a connection that is not a participant of
  the room the payload names: the payload's \<open>roomId\<close> is not a string, or names no
  room of the table, or names a room without the sender; the payload may be of any kind, also
  \<^verbatim>\<open>undefined\<close> or \<^verbatim>\<open>null\<close>. The handler leaves the table as it was and makes
  a single transport call, \<open>signaling-error\<close> emitted on the calling socket, so
  that no relay event is emitted. The message is \<open>Not a room participant\<close> when the
  payload is neither \<^verbatim>\<open>undefined\<close> nor \<^verbatim>\<open>null\<close>, and otherwise that of the
  \<^verbatim>\<open>TypeError\<close> thrown by reading \<^verbatim>\<open>payload.roomId\<close>.
\<close>

theorem relay_rejects_non_member:
  "\<not> (\<exists>r ps. property_of payload ''roomId'' = JSString r \<and> Map_get rs r = Some ps \<and> c \<in> set ps) \<Longrightarrow>
   relay v k rs c payload =
     (rs, [Emit (ToSelf c) ''signaling-error''
             [(''error'', JSString
                 (if payload = JSUndefined \<or> payload = JSNull
                  then type_error_message payload ''roomId''
                  else ''Not a room participant''))]])"
proof -
  assume a: "\<not> (\<exists>r ps. property_of payload ''roomId'' = JSString r \<and> Map_get rs r = Some ps \<and> c \<in> set ps)"
  have n: "\<not> validateRoomParticipant rs c (property_of payload ''roomId'')"
  proof (cases "property_of payload ''roomId''")
    case (JSString r)
    with a show ?thesis
      by (cases "Map_get rs r")
         (simp_all add: validateRoomParticipant_def Map_get_value_def Set_has_def)
  qed (simp_all add: validateRoomParticipant_def Map_get_value_def)
  show ?thesis
  proof (cases "payload = JSUndefined \<or> payload = JSNull")
    case True
    then show ?thesis
      by (cases v; cases k)
         (auto simp: handleOffer_def handleAnswer_def handleIceCandidate_def
            handleOffer2_def handleAnswer2_def handleIceCandidate2_def read_property_def
            signaling_error_def)
  next
    case False
    with n show ?thesis
      by (cases v; cases k)
         (simp_all add: handleOffer_def handleAnswer_def handleIceCandidate_def
            handleOffer2_def handleAnswer2_def handleIceCandidate2_def read_property_def
            signaling_error_def)
  qed
qed

theorem relay_rejects_non_member_witness:
  "relay Rev1 OfferK [(''x'', [''A'', ''B''])] ''C''
      (JSObject [(''roomId'', JSString ''x''), (''offer'', JSString ''sdp''),
                 (''targetPeerId'', JSString ''A'')]) =
     ([(''x'', [''A'', ''B''])],
      [Emit (ToSelf ''C'') ''signaling-error'' [(''error'', JSString ''Not a room participant'')]]) \<and>
   relay Rev2 IceCandidateK [(''x'', [''A'', ''B''])] ''C''
      (JSObject [(''roomId'', JSString ''y''), (''targetPeerId'', JSString ''A'')]) =
     ([(''x'', [''A'', ''B''])],
      [Emit (ToSelf ''C'') ''signaling-error'' [(''error'', JSString ''Not a room participant'')]]) \<and>
   relay Rev1 AnswerK [(''x'', [''A'', ''B''])] ''C'' (JSObject []) =
     ([(''x'', [''A'', ''B''])],
      [Emit (ToSelf ''C'') ''signaling-error'' [(''error'', JSString ''Not a room participant'')]]) \<and>
   relay Rev2 OfferK [(''x'', [''A'', ''B''])] ''C'' JSNull =
     ([(''x'', [''A'', ''B''])],
      [Emit (ToSelf ''C'') ''signaling-error''
         [(''error'', JSString ''Cannot read properties of null (reading 'roomId')'')]])"
proof -
  have one: "\<not> (\<exists>r ps. property_of (JSObject [(''roomId'', JSString ''x''), (''offer'', JSString ''sdp''),
        (''targetPeerId'', JSString ''A'')]) ''roomId'' = JSString r \<and>
      Map_get [(''x'', [''A'', ''B''])] r = Some ps \<and> ''C'' \<in> set ps)"
    by (auto split: if_splits)
  have two: "\<not> (\<exists>r ps. property_of (JSObject [(''roomId'', JSString ''y''),
        (''targetPeerId'', JSString ''A'')]) ''roomId'' = JSString r \<and>
      Map_get [(''x'', [''A'', ''B''])] r = Some ps \<and> ''C'' \<in> set ps)"
    by (auto split: if_splits)
  have three: "\<not> (\<exists>r ps. property_of (JSObject []) ''roomId'' = JSString r \<and>
      Map_get [(''x'', [''A'', ''B''])] r = Some ps \<and> ''C'' \<in> set ps)"
    by simp
  have four: "\<not> (\<exists>r ps. property_of JSNull ''roomId'' = JSString r \<and>
      Map_get [(''x'', [''A'', ''B''])] r = Some ps \<and> ''C'' \<in> set ps)"
    by simp
  from relay_rejects_non_member [OF one, of Rev1 OfferK]
    relay_rejects_non_member [OF two, of Rev2 IceCandidateK]
    relay_rejects_non_member [OF three, of Rev1 AnswerK]
    relay_rejects_non_member [OF four, of Rev2 OfferK]
  show ?thesis by (simp add: type_error_message_def)
qed

text \<open>
  The claim as stated fails on a relay sent without a payload, or with \<^verbatim>\<open>null\<close>:
  \<open>A\<close>, in no room, is answered with the message of the \<^verbatim>\<open>TypeError\<close>, not
  with \<open>Not a room participant\<close>.
\<close>

theorem relay_no_payload_counterexample:
  "relay Rev1 OfferK [] ''A'' JSUndefined =
     ([], [Emit (ToSelf ''A'') ''signaling-error''
             [(''error'', JSString ''Cannot read properties of undefined (reading 'roomId')'')]]) \<and>
   relay Rev2 OfferK [] ''A'' JSUndefined =
     ([], [Emit (ToSelf ''A'') ''signaling-error''
             [(''error'', JSString ''Cannot read properties of undefined (reading 'roomId')'')]]) \<and>
   relay Rev1 OfferK [] ''A'' JSUndefined \<noteq>
     ([], [Emit (ToSelf ''A'') ''signaling-error''
             [(''error'', JSString ''Not a room participant'')]]) \<and>
   relay Rev1 AnswerK [(''x'', [''B''])] ''A'' JSNull \<noteq>
     ([(''x'', [''B''])], [Emit (ToSelf ''A'') ''signaling-error''
             [(''error'', JSString ''Not a room participant'')]])"
  by (simp add: eval_simps)

text \<open>
  Claim C3. In either revision and on any room table, a \<open>join-room\<close> whose room
  identifier is the empty string or is not a string leaves the table as it was and
  makes a single transport call: \<open>room-error\<close> with the message
  \<open>Invalid room ID\<close>, emitted on the calling socket (so the socket does not join
  a transport room either).
\<close>

theorem join_invalid_room_id:
  "r = JSString [] \<or> (\<forall>s. r \<noteq> JSString s) \<Longrightarrow>
   handle v rs (JoinRoom c r) =
     (rs, [Emit (ToSelf c) ''room-error'' [(''error'', JSString ''Invalid room ID'')]])"
  by (cases v; cases r)
     (auto simp: handleJoinRoom_def joinRoom_try_def handleJoinRoom2_def joinRoom_try2_def)

theorem join_invalid_room_id_witness:
  "handle Rev1 [(''x'', [''A''])] (JoinRoom ''B'' (JSString [])) =
     ([(''x'', [''A''])], [Emit (ToSelf ''B'') ''room-error'' [(''error'', JSString ''Invalid room ID'')]]) \<and>
   handle Rev2 [(''x'', [''A''])] (JoinRoom ''B'' (JSNumber 7)) =
     ([(''x'', [''A''])], [Emit (ToSelf ''B'') ''room-error'' [(''error'', JSString ''Invalid room ID'')]]) \<and>
   handle Rev1 [(''x'', [''A''])] (JoinRoom ''B'' JSUndefined) =
     ([(''x'', [''A''])], [Emit (ToSelf ''B'') ''room-error'' [(''error'', JSString ''Invalid room ID'')]])"
  using join_invalid_room_id [of "JSString []" Rev1 "[(''x'', [''A''])]" "''B''"]
    join_invalid_room_id [of "JSNumber 7" Rev2 "[(''x'', [''A''])]" "''B''"]
    join_invalid_room_id [of JSUndefined Rev1 "[(''x'', [''A''])]" "''B''"]
  by simp

subsection \<open>Rooms come and go\<close>

text \<open>
  Claim C4. After any sequence of inbound events from the empty table, in either
  revision, no room of the table has an empty participant list. In particular, when
  \<open>c\<close> is the only participant of room \<open>r\<close>, after the disconnect of \<open>c\<close> the
  table has no entry for \<open>r\<close>, and a \<open>join-room\<close> on \<open>r\<close> by any \<open>c'\<close> then
  succeeds: it appends \<open>r\<close> with \<open>c'\<close> as its only participant and answers
  \<open>room-joined\<close>, with no peer notification.
\<close>

theorem no_empty_room:
  "(\<forall>(r, ps) \<in> set (run v es). ps \<noteq> []) \<and>
   (\<forall>r c c'. Map_get (run v es) r = Some [c] \<longrightarrow>
      Map_get (fst (handle v (run v es) (Disconnect c))) r = None \<and>
      handle v (fst (handle v (run v es) (Disconnect c))) (JoinRoom c' (JSString r)) =
        (fst (handle v (run v es) (Disconnect c)) @ [(r, [c'])],
         [SocketJoin c' r,
          Emit (ToSelf c') ''room-joined''
            [(''success'', JSBoolean True), (''roomId'', JSString r)]]))"
proof -
  have ok: "store_ok (run v es)" by (rule store_ok_run)
  have ne: "\<forall>(r, ps) \<in> set (run v es). ps \<noteq> []"
    using store_ok_nonempty [OF ok] by auto
  have gone: "Map_get (fst (handle v (run v es) (Disconnect c))) r = None \<and>
      handle v (fst (handle v (run v es) (Disconnect c))) (JoinRoom c' (JSString r)) =
        (fst (handle v (run v es) (Disconnect c)) @ [(r, [c'])],
         [SocketJoin c' r,
          Emit (ToSelf c') ''room-joined''
            [(''success'', JSBoolean True), (''roomId'', JSString r)]])"
    if g: "Map_get (run v es) r = Some [c]" for r c c'
  proof -
    from ok have d: "distinct (map fst (run v es))" by (simp add: store_ok_def)
    from store_ok_get [OF ok g] have r: "r \<noteq> []" by simp
    have n: "Map_get (fst (handle v (run v es) (Disconnect c))) r = None"
      by (simp add: fst_disconnect Map_get_cleanupClient [OF d] g Set_delete_def)
    from join_room_absent [OF r n] n show ?thesis by simp
  qed
  from ne gone show ?thesis by blast
qed

theorem no_empty_room_witness:
  "run Rev1 [JoinRoom ''A'' (JSString ''x'')] = [(''x'', [''A''])] \<and>
   handle Rev1 [(''x'', [''A''])] (Disconnect ''A'') = ([], []) \<and>
   handle Rev1 [] (JoinRoom ''B'' (JSString ''x'')) =
     ([(''x'', [''B''])],
      [SocketJoin ''B'' ''x'',
       Emit (ToSelf ''B'') ''room-joined''
         [(''success'', JSBoolean True), (''roomId'', JSString ''x'')]])"
proof -
  have g: "run Rev1 [JoinRoom ''A'' (JSString ''x'')] = [(''x'', [''A''])]"
    by (simp add: eval_simps)
  have h: "handle Rev1 [(''x'', [''A''])] (Disconnect ''A'') = ([], [])"
    by (simp add: eval_simps)
  from no_empty_room [of Rev1 "[JoinRoom ''A'' (JSString ''x'')]"]
  have "Map_get [(''x'', [''A''])] ''x'' = Some [''A''] \<longrightarrow>
      handle Rev1 (fst (handle Rev1 [(''x'', [''A''])] (Disconnect ''A''))) (JoinRoom ''B'' (JSString ''x'')) =
        (fst (handle Rev1 [(''x'', [''A''])] (Disconnect ''A'')) @ [(''x'', [''B''])],
         [SocketJoin ''B'' ''x'',
          Emit (ToSelf ''B'') ''room-joined''
            [(''success'', JSBoolean True), (''roomId'', JSString ''x'')]])"
    unfolding g by blast
  then show ?thesis unfolding g h by simp
qed

subsection \<open>Relays\<close>





subsection \<open>Connect and disconnect\<close>

text \<open>
  Claim C9. In either revision, on any room table: the disconnect handler emits nothing
  but \<open>peer-disconnected\<close> events (no error event); when the connection is in
  no room it returns the table as it was and makes no transport call; and the
  connect handler returns the table as it was and makes no transport call.
\<close>

theorem disconnect_frame:
  "(\<forall>e \<in> set (snd (handle v rs (Disconnect c))).
       \<exists>d. e = Emit (ServerTo (JSString d)) ''peer-disconnected'' [(''peerId'', JSString c)]) \<and>
   ((\<forall>(k, ps) \<in> set rs. c \<notin> set ps) \<longrightarrow> handle v rs (Disconnect c) = (rs, [])) \<and>
   handle v rs (Connect c) = (rs, [])"
proof -
  have calls: "\<forall>e \<in> set (snd (handle v rs (Disconnect c))).
       \<exists>d. e = Emit (ServerTo (JSString d)) ''peer-disconnected'' [(''peerId'', JSString c)]"
    by (cases v) (auto simp: handleDisconnect_def handleDisconnect2_def snd_cleanupClient2
        dest: cleanupClient_calls)
  have frame: "handle v rs (Disconnect c) = (rs, [])" if a: "\<forall>(k, ps) \<in> set rs. c \<notin> set ps"
  proof -
    from cleanupClient_absent [OF a] have one: "cleanupClient rs c = (rs, [])" .
    then have "fst (cleanupClient2 rs c) = rs" by (simp add: fst_cleanupClient2)
    then have two: "cleanupClient2 rs c = (rs, [])"
      using snd_cleanupClient2 [of rs c] by (cases "cleanupClient2 rs c") simp
    from one two show ?thesis
      by (cases v) (simp_all add: handleDisconnect_def handleDisconnect2_def)
  qed
  have conn: "handle v rs (Connect c) = (rs, [])" by (simp add: handleConnection_def)
  from calls frame conn show ?thesis by blast
qed

theorem disconnect_frame_witness:
  "handle Rev1 [(''x'', [''A'', ''B''])] (Disconnect ''C'') = ([(''x'', [''A'', ''B''])], []) \<and>
   handle Rev2 [(''x'', [''A'', ''B''])] (Disconnect ''C'') = ([(''x'', [''A'', ''B''])], []) \<and>
   handle Rev1 [(''x'', [''A'', ''B''])] (Connect ''C'') = ([(''x'', [''A'', ''B''])], []) \<and>
   ''C'' \<notin> set [''A'', ''B''] \<and>
   snd (handle Rev1 [(''x'', [''A'', ''B''])] (Disconnect ''A'')) =
     [Emit (ServerTo (JSString ''B'')) ''peer-disconnected'' [(''peerId'', JSString ''A'')]] \<and>
   (\<exists>d. Emit (ServerTo (JSString ''B'')) ''peer-disconnected'' [(''peerId'', JSString ''A'')] =
        Emit (ServerTo (JSString d)) ''peer-disconnected'' [(''peerId'', JSString ''A'')])"
proof -
  have out: "snd (handle Rev1 [(''x'', [''A'', ''B''])] (Disconnect ''A'')) =
     [Emit (ServerTo (JSString ''B'')) ''peer-disconnected'' [(''peerId'', JSString ''A'')]]"
    by (simp add: eval_simps)
  from disconnect_frame [of Rev1 "[(''x'', [''A'', ''B''])]" "''A''"]
  have member: "\<exists>d. Emit (ServerTo (JSString ''B'')) ''peer-disconnected'' [(''peerId'', JSString ''A'')] =
        Emit (ServerTo (JSString d)) ''peer-disconnected'' [(''peerId'', JSString ''A'')]"
    unfolding out by simp
  from disconnect_frame [of Rev1 "[(''x'', [''A'', ''B''])]" "''C''"]
    disconnect_frame [of Rev2 "[(''x'', [''A'', ''B''])]" "''C''"] out member
  show ?thesis by simp
qed

subsection \<open>Joining a room twice\<close>

text \<open>
  Claim C10. On a table reached by any sequence of inbound events, in either revision,
  let \<open>c\<close> be a participant of room \<open>r\<close> and join \<open>r\<close> again. When \<open>r\<close> has
  fewer than 2 participants the join is answered with \<open>room-joined\<close> and the whole
  table is as it was. When \<open>r\<close> has 2 participants the join is answered with
  \<open>room-error\<close> \<open>Room is full\<close>, although \<open>c\<close> is one of the two.
\<close>

theorem rejoin_same_room:
  "Map_get (run v es) r = Some ps \<Longrightarrow> c \<in> set ps \<Longrightarrow>
   (length ps < 2 \<longrightarrow>
      handle v (run v es) (JoinRoom c (JSString r)) =
        (run v es,
         [SocketJoin c r,
          Emit (ToSelf c) ''room-joined''
            [(''success'', JSBoolean True), (''roomId'', JSString r)]])) \<and>
   (length ps = 2 \<longrightarrow>
      handle v (run v es) (JoinRoom c (JSString r)) =
        (run v es, [Emit (ToSelf c) ''room-error'' [(''error'', JSString ''Room is full'')]]))"
proof -
  assume g: "Map_get (run v es) r = Some ps" and c: "c \<in> set ps"
  from store_ok_get [OF store_ok_run g] have r: "r \<noteq> []" and d: "distinct ps" by simp_all
  have again: "handle v (run v es) (JoinRoom c (JSString r)) =
        (run v es,
         [SocketJoin c r,
          Emit (ToSelf c) ''room-joined''
            [(''success'', JSBoolean True), (''roomId'', JSString r)]])" if l: "length ps < 2"
  proof -
    from short_member [OF d c l] have ps: "ps = [c]" .
    from g ps have s: "Map_set (run v es) r [c] = run v es" by (simp add: Map_set_same)
    from r g ps s show ?thesis
      by (cases v)
         (simp_all add: handleJoinRoom_def joinRoom_try_def handleJoinRoom2_def joinRoom_try2_def
            Set_size_def Set_add_def MAX_PARTICIPANTS_def new_peer_exchange_def)
  qed
  have full: "handle v (run v es) (JoinRoom c (JSString r)) =
        (run v es, [Emit (ToSelf c) ''room-error'' [(''error'', JSString ''Room is full'')]])"
    if l: "length ps = 2"
    using join_room_full [OF r g, of v c] l by (simp add: MAX_PARTICIPANTS_def)
  from again full show ?thesis by blast
qed

theorem rejoin_same_room_witness:
  "run Rev1 [JoinRoom ''A'' (JSString ''x'')] = [(''x'', [''A''])] \<and>
   handle Rev1 [(''x'', [''A''])] (JoinRoom ''A'' (JSString ''x'')) =
     ([(''x'', [''A''])],
      [SocketJoin ''A'' ''x'',
       Emit (ToSelf ''A'') ''room-joined''
         [(''success'', JSBoolean True), (''roomId'', JSString ''x'')]]) \<and>
   run Rev2 [JoinRoom ''A'' (JSString ''x''), JoinRoom ''B'' (JSString ''x'')] =
     [(''x'', [''A'', ''B''])] \<and>
   handle Rev2 [(''x'', [''A'', ''B''])] (JoinRoom ''A'' (JSString ''x'')) =
     ([(''x'', [''A'', ''B''])],
      [Emit (ToSelf ''A'') ''room-error'' [(''error'', JSString ''Room is full'')]])"
proof -
  have g1: "run Rev1 [JoinRoom ''A'' (JSString ''x'')] = [(''x'', [''A''])]"
    by (simp add: eval_simps)
  have g2: "run Rev2 [JoinRoom ''A'' (JSString ''x''), JoinRoom ''B'' (JSString ''x'')] =
     [(''x'', [''A'', ''B''])]"
    by (simp add: eval_simps)
  have m1: "Map_get (run Rev1 [JoinRoom ''A'' (JSString ''x'')]) ''x'' = Some [''A'']"
    unfolding g1 by simp
  have m2: "Map_get (run Rev2 [JoinRoom ''A'' (JSString ''x''), JoinRoom ''B'' (JSString ''x'')]) ''x''
      = Some [''A'', ''B'']"
    unfolding g2 by simp
  from rejoin_same_room [OF m1, of "''A''"] rejoin_same_room [OF m2, of "''A''"]
  show ?thesis unfolding g1 g2 by simp
qed

subsection \<open>Leaving a room of two\<close>

text \<open>
  Claim C5, as amended. On a table reached by any sequence of inbound events, let
  \<open>c\<close> and \<open>d\<close> be the two participants of room \<open>r\<close>. After the disconnect of
  \<open>c\<close>, in either revision, \<open>r\<close> is still in the table with \<open>d\<close> as its only
  participant. The first revision emits to \<open>d\<close> one \<open>peer-disconnected\<close> event
  carrying \<open>c\<close> for every room that held both \<open>c\<close> and \<open>d\<close>: at least one, and
  exactly one when \<open>r\<close> is the only such room. The second revision emits nothing.
\<close>

theorem disconnect_one_of_two:
  "Map_get (run v es) r = Some ps \<Longrightarrow> length ps = 2 \<Longrightarrow> c \<in> set ps \<Longrightarrow> d \<in> set ps \<Longrightarrow> d \<noteq> c \<Longrightarrow>
   Map_get (fst (handle v (run v es) (Disconnect c))) r = Some [d] \<and>
   events_on (ServerTo (JSString d)) ''peer-disconnected'' (snd (handle Rev1 (run v es) (Disconnect c))) =
     replicate (shared_rooms (run v es) c d) [(''peerId'', JSString c)] \<and>
   1 \<le> shared_rooms (run v es) c d \<and>
   ((\<forall>r' qs. Map_get (run v es) r' = Some qs \<and> c \<in> set qs \<and> d \<in> set qs \<longrightarrow> r' = r) \<longrightarrow>
      shared_rooms (run v es) c d = 1) \<and>
   snd (handle Rev2 (run v es) (Disconnect c)) = []"
proof -
  assume g: "Map_get (run v es) r = Some ps" and l: "length ps = 2"
    and c: "c \<in> set ps" and d: "d \<in> set ps" and n: "d \<noteq> c"
  have ok: "store_ok (run v es)" by (rule store_ok_run)
  from ok have dk: "distinct (map fst (run v es))"
    and da: "\<forall>(k, ps) \<in> set (run v es). distinct ps"
    by (auto simp: store_ok_def)
  from store_ok_get [OF ok g] have dp: "distinct ps" by simp
  from two_members [OF l dp c d n] have f: "filter (\<lambda>y. y \<noteq> c) ps = [d]" .
  have one: "Map_get (fst (handle v (run v es) (Disconnect c))) r = Some [d]"
    by (simp add: fst_disconnect Map_get_cleanupClient [OF dk] g c Set_delete_def f)
  have two: "events_on (ServerTo (JSString d)) ''peer-disconnected'' (snd (handle Rev1 (run v es) (Disconnect c))) =
     replicate (shared_rooms (run v es) c d) [(''peerId'', JSString c)]"
    using events_on_cleanupClient [OF da n] by (simp add: handleDisconnect_def)
  have three: "1 \<le> shared_rooms (run v es) c d"
    by (rule shared_rooms_pos [OF Map_get_in_set [OF g] c d])
  have four: "snd (handle Rev2 (run v es) (Disconnect c)) = []"
    by (simp add: handleDisconnect2_def snd_cleanupClient2)
  have five: "shared_rooms (run v es) c d = 1"
    if only: "\<forall>r' qs. Map_get (run v es) r' = Some qs \<and> c \<in> set qs \<and> d \<in> set qs \<longrightarrow> r' = r"
  proof (rule shared_rooms_one [OF dk Map_get_in_set [OF g] c d])
    show "\<forall>(k, qs) \<in> set (run v es). c \<in> set qs \<and> d \<in> set qs \<longrightarrow> k = r"
      using only in_set_Map_get [OF dk] by blast
  qed
  from one two three four five show ?thesis by simp
qed

theorem disconnect_one_of_two_witness:
  "run Rev1 [JoinRoom ''A'' (JSString ''x''), JoinRoom ''B'' (JSString ''x'')] =
     [(''x'', [''A'', ''B''])] \<and>
   Map_get (fst (handle Rev1 [(''x'', [''A'', ''B''])] (Disconnect ''A''))) ''x'' = Some [''B''] \<and>
   events_on (ServerTo (JSString ''B'')) ''peer-disconnected''
       (snd (handle Rev1 [(''x'', [''A'', ''B''])] (Disconnect ''A''))) =
     [[(''peerId'', JSString ''A'')]] \<and>
   snd (handle Rev2 [(''x'', [''A'', ''B''])] (Disconnect ''A'')) = []"
proof -
  have g: "run Rev1 [JoinRoom ''A'' (JSString ''x''), JoinRoom ''B'' (JSString ''x'')] =
     [(''x'', [''A'', ''B''])]"
    by (simp add: eval_simps)
  have m: "Map_get (run Rev1 [JoinRoom ''A'' (JSString ''x''), JoinRoom ''B'' (JSString ''x'')]) ''x''
      = Some [''A'', ''B'']"
    unfolding g by simp
  have only: "\<forall>r' qs. Map_get [(''x'', [''A'', ''B''])] r' = Some qs \<and> ''A'' \<in> set qs \<and> ''B'' \<in> set qs
      \<longrightarrow> r' = ''x''"
    by (auto split: if_splits)
  from disconnect_one_of_two [OF m, of "''A''" "''B''"] only
  have "Map_get (fst (handle Rev1 [(''x'', [''A'', ''B''])] (Disconnect ''A''))) ''x'' = Some [''B''] \<and>
     events_on (ServerTo (JSString ''B'')) ''peer-disconnected''
       (snd (handle Rev1 [(''x'', [''A'', ''B''])] (Disconnect ''A''))) =
     replicate 1 [(''peerId'', JSString ''A'')] \<and>
     snd (handle Rev2 [(''x'', [''A'', ''B''])] (Disconnect ''A'')) = []"
    unfolding g by simp
  with g show ?thesis by simp
qed

text \<open>
  The claim as stated fails twice. In the second revision \<open>B\<close>, left alone in
  \<open>x\<close> by the disconnect of \<open>A\<close>, is sent no event at all. In the first revision,
  when \<open>A\<close> and \<open>B\<close> share the rooms \<open>x\<close> and \<open>y\<close>, \<open>B\<close> is sent two
  \<open>peer-disconnected\<close> events carrying \<open>A\<close>.
\<close>

theorem disconnect_counterexample:
  "run Rev2 [JoinRoom ''A'' (JSString ''x''), JoinRoom ''B'' (JSString ''x'')] =
     [(''x'', [''A'', ''B''])] \<and>
   handle Rev2 [(''x'', [''A'', ''B''])] (Disconnect ''A'') = ([(''x'', [''B''])], []) \<and>
   length (events_on (ServerTo (JSString ''B'')) ''peer-disconnected''
      (snd (handle Rev2 [(''x'', [''A'', ''B''])] (Disconnect ''A'')))) \<noteq> 1 \<and>
   run Rev1 [JoinRoom ''A'' (JSString ''x''), JoinRoom ''B'' (JSString ''x''),
             JoinRoom ''A'' (JSString ''y''), JoinRoom ''B'' (JSString ''y'')] =
     [(''x'', [''A'', ''B'']), (''y'', [''A'', ''B''])] \<and>
   handle Rev1 [(''x'', [''A'', ''B'']), (''y'', [''A'', ''B''])] (Disconnect ''A'') =
     ([(''x'', [''B'']), (''y'', [''B''])],
      [Emit (ServerTo (JSString ''B'')) ''peer-disconnected'' [(''peerId'', JSString ''A'')],
       Emit (ServerTo (JSString ''B'')) ''peer-disconnected'' [(''peerId'', JSString ''A'')]]) \<and>
   length (events_on (ServerTo (JSString ''B'')) ''peer-disconnected''
      (snd (handle Rev1 [(''x'', [''A'', ''B'']), (''y'', [''A'', ''B''])] (Disconnect ''A'')))) \<noteq> 1"
  by (simp add: eval_simps)

subsection \<open>Peer notifications\<close>




end
